theory Spec2Isabelle
  imports Complex_Main
begin

section \<open>The SMA target/stop strategy (scripts/backtest.py)\<close>

text \<open>
  Prices, sizes and the indicator value are Python floats in the source. A finite float
  is the real number it denotes, and comparing two floats compares these numbers, so the
  values are modelled as \<^typ>\<open>real\<close>. Floating-point arithmetic rounds: the result of an
  operation is the exact result rounded to a float. The rounding is the parameter \<open>rnd\<close>
  of the functions that compute (the two thresholds of the exits); nothing is assumed
  about it, so what is proved holds for the rounding of the machine as for exact
  arithmetic (\<open>rnd = id\<close>). Not-a-number and the infinities are outside the model.
  The collaborators of the class that live in the backtesting library (the broker, the
  position, the crossover indicator) are inputs of the model: each bar carries the
  position size and the indicator value the strategy reads, each notification carries
  the order object passed to \<open>notify_order\<close>.
\<close>

datatype side = Buy | Sell

datatype order_status =
  Created | Submitted | Accepted | Partial | Completed | Canceled | Expired | Margin | Rejected

text \<open>The order object handed to \<open>notify_order\<close>: only the attributes the method reads
  (\<open>status\<close>, \<open>isbuy()\<close>/\<open>issell()\<close>, \<open>executed.price\<close>) and the executed size.\<close>

record order_event =
  status :: order_status
  ordtype :: side
  executed_price :: real
  executed_size :: real

text \<open>The lines the strategy prints through \<open>self.log\<close>, one constructor per call site.\<close>

datatype log_line =
  BuyExecuted real | SellExecuted real
  | LongTarget real | LongStop real | ShortTarget real | ShortStop real

text \<open>\<open>params\<close>: the two thresholds (the window lengths only feed the indicators).\<close>

record params =
  target :: real
  stop_loss :: real

text \<open>The attributes \<open>__init__\<close> creates: \<open>self.order\<close> (the pending-order marker, here
  the side of the order it holds) and \<open>self.entry_price\<close>; both start as \<open>None\<close>.\<close>

record strategy =
  order :: "side option"
  entry_price :: "real option"

definition init_strategy :: strategy where
  "init_strategy = \<lparr>order = None, entry_price = None\<rparr>"

text \<open>The defaults of \<open>params\<close>, 0.003 and 0.001, as the decimal fractions written in the
  source (the floats closest to them differ from these after the sixteenth digit).\<close>

definition default_params :: params where
  "default_params = \<lparr>target = 3 / 1000, stop_loss = 1 / 1000\<rparr>"

text \<open>
  \<open>notify_order\<close>: only a \<open>Completed\<close> order is looked at. Both the buy and the sell case
  store the executed price in \<open>entry_price\<close>; then the marker is reset.
\<close>

definition notify_order :: "order_event \<Rightarrow> strategy \<Rightarrow> strategy \<times> log_line list" where
  "notify_order ord s =
     (if status ord = Completed then
        (case ordtype ord of
           Buy \<Rightarrow>
             (s\<lparr>entry_price := Some (executed_price ord), order := None\<rparr>,
              [BuyExecuted (executed_price ord)])
         | Sell \<Rightarrow>
             (s\<lparr>entry_price := Some (executed_price ord), order := None\<rparr>,
              [SellExecuted (executed_price ord)]))
      else (s, []))"

text \<open>Python truth value of \<open>self.entry_price\<close>: \<open>None\<close> and \<open>0.0\<close> are false.\<close>

definition truthy_price :: "real option \<Rightarrow> bool" where
  "truthy_price e = (case e of None \<Rightarrow> False | Some x \<Rightarrow> x \<noteq> 0)"

text \<open>
  One bar. The result is the new strategy, the orders submitted on this bar (one entry
  per call of \<open>self.buy()\<close> or \<open>self.sell()\<close>) and the lines logged. \<open>psize\<close> is
  \<open>self.position.size\<close>, \<open>crossover\<close> the indicator value, \<open>close\<close> is \<open>self.data.close[0]\<close>.
  A threshold such as \<open>self.entry_price * (1 + self.p.target)\<close> is two operations, each
  rounded.
  The two exit blocks are separate \<open>if\<close> statements run one after the other, as in the
  source; submitting an order does not change the position within the bar.
\<close>

definition long_exit ::
  "(real \<Rightarrow> real) \<Rightarrow> params \<Rightarrow> real \<Rightarrow> real \<Rightarrow> strategy \<Rightarrow>
     strategy \<times> side list \<times> log_line list" where
  "long_exit rnd p psize close s =
     (if psize > 0 \<and> truthy_price (entry_price s) then
        (case entry_price s of
           None \<Rightarrow> (s, [], [])
         | Some e \<Rightarrow>
             if close \<ge> rnd (e * rnd (1 + target p)) then
               (s\<lparr>order := Some Sell\<rparr>, [Sell], [LongTarget close])
             else if close \<le> rnd (e * rnd (1 - stop_loss p)) then
               (s\<lparr>order := Some Sell\<rparr>, [Sell], [LongStop close])
             else (s, [], []))
      else (s, [], []))"

definition short_exit ::
  "(real \<Rightarrow> real) \<Rightarrow> params \<Rightarrow> real \<Rightarrow> real \<Rightarrow> strategy \<Rightarrow>
     strategy \<times> side list \<times> log_line list" where
  "short_exit rnd p psize close s =
     (if psize < 0 \<and> truthy_price (entry_price s) then
        (case entry_price s of
           None \<Rightarrow> (s, [], [])
         | Some e \<Rightarrow>
             if close \<le> rnd (e * rnd (1 - target p)) then
               (s\<lparr>order := Some Buy\<rparr>, [Buy], [ShortTarget close])
             else if close \<ge> rnd (e * rnd (1 + stop_loss p)) then
               (s\<lparr>order := Some Buy\<rparr>, [Buy], [ShortStop close])
             else (s, [], []))
      else (s, [], []))"

definition next_bar ::
  "(real \<Rightarrow> real) \<Rightarrow> params \<Rightarrow> real \<Rightarrow> real \<Rightarrow> real \<Rightarrow> strategy \<Rightarrow>
     strategy \<times> side list \<times> log_line list" where
  "next_bar rnd p psize crossover close s =
     (if order s \<noteq> None then (s, [], [])
      else if psize = 0 \<and> crossover > 0 then (s\<lparr>order := Some Buy\<rparr>, [Buy], [])
      else if psize = 0 \<and> crossover < 0 then (s\<lparr>order := Some Sell\<rparr>, [Sell], [])
      else
        (case long_exit rnd p psize close s of
           (s1, sub1, log1) \<Rightarrow>
             (case short_exit rnd p psize close s1 of
                (s2, sub2, log2) \<Rightarrow> (s2, sub1 @ sub2, log1 @ log2))))"

text \<open>
  A run of the strategy: the engine calls \<open>next\<close> once per bar and \<open>notify_order\<close> for
  every status change of an order, in some interleaving. The run collects the orders
  submitted and the lines logged.
\<close>

datatype event =
  Bar real real real
  | Notify order_event

fun run ::
  "(real \<Rightarrow> real) \<Rightarrow> params \<Rightarrow> strategy \<Rightarrow> event list \<Rightarrow>
     strategy \<times> side list \<times> log_line list" where
  "run rnd p s [] = (s, [], [])"
| "run rnd p s (Bar psize crossover close # evs) =
     (case next_bar rnd p psize crossover close s of
        (s1, sub1, log1) \<Rightarrow>
          (case run rnd p s1 evs of (s2, sub2, log2) \<Rightarrow> (s2, sub1 @ sub2, log1 @ log2)))"
| "run rnd p s (Notify ord # evs) =
     (case notify_order ord s of
        (s1, log1) \<Rightarrow>
          (case run rnd p s1 evs of (s2, sub2, log2) \<Rightarrow> (s2, sub2, log1 @ log2)))"

text \<open>The notifications of a run that report a completed order.\<close>

fun completed_count :: "event list \<Rightarrow> nat" where
  "completed_count [] = 0"
| "completed_count (Bar psize crossover close # evs) = completed_count evs"
| "completed_count (Notify ord # evs) =
     (if status ord = Completed then Suc (completed_count evs) else completed_count evs)"

text \<open>
  The broker of the backtesting library (not part of the repository) adjusts the position
  when it executes an order, before it notifies the strategy: a buy adds the executed
  size, a sell takes it away. The side of a position is the sign of its size.
\<close>

definition position_after :: "real \<Rightarrow> order_event \<Rightarrow> real" where
  "position_after psize ord =
     (case ordtype ord of Buy \<Rightarrow> psize + executed_size ord | Sell \<Rightarrow> psize - executed_size ord)"

datatype position_side = Flat | Long | Short

definition side_of :: "real \<Rightarrow> position_side" where
  "side_of psize = (if psize > 0 then Long else if psize < 0 then Short else Flat)"

text \<open>
  The trade summary of the main block: the counts are read from the analyzer's nested
  dictionary with \<open>.get(key, default)\<close>, and the win probability guards the division.
  Python's \<open>/\<close> on integers is true division (a float, here a real) and raises
  \<open>ZeroDivisionError\<close> on a zero divisor.
\<close>

datatype py_error = ZeroDivisionError | ValueError | KeyError

type_synonym analysis = "string \<rightharpoonup> (string \<rightharpoonup> int)"

definition get_count :: "analysis \<Rightarrow> string \<Rightarrow> string \<Rightarrow> int" where
  "get_count a k1 k2 =
     (case a k1 of
        None \<Rightarrow> 0
      | Some d \<Rightarrow> (case d k2 of None \<Rightarrow> 0 | Some n \<Rightarrow> n))"

definition true_div :: "int \<Rightarrow> int \<Rightarrow> py_error + real" where
  "true_div a b = (if b = 0 then Inl ZeroDivisionError else Inr (real_of_int a / real_of_int b))"

definition win_probability :: "int \<Rightarrow> int \<Rightarrow> py_error + real" where
  "win_probability winning_trades total_trades =
     (if total_trades > 0 then
        (case true_div winning_trades total_trades of
           Inl e \<Rightarrow> Inl e
         | Inr q \<Rightarrow> Inr (q * 100))
      else Inr 0)"

definition summary_win_probability :: "analysis \<Rightarrow> py_error + real" where
  "summary_win_probability a =
     win_probability (get_count a ''won'' ''total'') (get_count a ''total'' ''closed'')"

section \<open>The chunked backfill (scripts/historical_data_fetch.py)\<close>

text \<open>
  Dates are proleptic Gregorian ordinals, as \<open>date.toordinal()\<close> gives them; adding
  \<open>timedelta(days=30)\<close> adds 30, and \<open>strftime("%Y-%m-%d")\<close> names a day one to one, so a
  date range is a pair of ordinals. \<open>datetime(year, 1, 1)\<close> raises \<open>ValueError\<close> outside
  the years 1 to 9999.
\<close>

definition days_before_year :: "int \<Rightarrow> int" where
  "days_before_year year = (let y = year - 1 in y * 365 + y div 4 - y div 100 + y div 400)"

definition jan1 :: "int \<Rightarrow> py_error + int" where
  "jan1 year =
     (if 1 \<le> year \<and> year \<le> 9999 then Inr (days_before_year year + 1) else Inl ValueError)"

text \<open>
  The date variables of the \<open>while\<close> loop alone: the \<open>(from_date, to_date)\<close> pairs it
  goes through. The addition cannot leave the range of dates (up to ordinal 3652059,
  the last day of 9999): \<open>current_date\<close> is below an \<open>end_date\<close> that is the first day
  of a year.
\<close>

function date_ranges :: "int \<Rightarrow> int \<Rightarrow> (int \<times> int) list" where
  "date_ranges cur end_date =
     (if cur < end_date then (cur, cur + 30) # date_ranges (cur + 30) end_date else [])"
  by pat_completeness auto
termination
  by (relation "measure (\<lambda>(cur, end_date). nat (end_date - cur))") auto

declare date_ranges.simps [simp del]

text \<open>
  The remote source. A raw record is the list of fields of one candle; a response is
  \<open>None\<close>, a dictionary without a \<open>data\<close> key, or one with a \<open>data\<close> list. Every chunk is
  requested by one call of \<open>fetch_historical_data\<close>, so what the source answers is a
  function of the chunk and of the attempt number.
\<close>

datatype cell = S string | N real | NA

type_synonym raw_record = "cell list"

datatype response = RespNone | RespDict "raw_record list option"

datatype api_outcome = Raises | Returns response

type_synonym remote = "int \<times> int \<Rightarrow> nat \<Rightarrow> api_outcome"

text \<open>One attempt: the data it returns, if the call did not raise and
  \<open>response and "data" in response and response["data"]\<close> holds.\<close>

definition attempt_data :: "api_outcome \<Rightarrow> raw_record list option" where
  "attempt_data out =
     (case out of
        Raises \<Rightarrow> None
      | Returns RespNone \<Rightarrow> None
      | Returns (RespDict None) \<Rightarrow> None
      | Returns (RespDict (Some d)) \<Rightarrow> (if d \<noteq> [] then Some d else None))"

fun fetch_attempts :: "(nat \<Rightarrow> api_outcome) \<Rightarrow> nat list \<Rightarrow> raw_record list option" where
  "fetch_attempts call [] = None"
| "fetch_attempts call (attempt # rest) =
     (case attempt_data (call attempt) of
        Some d \<Rightarrow> Some d
      | None \<Rightarrow> fetch_attempts call rest)"

definition fetch_historical_data :: "remote \<Rightarrow> int \<Rightarrow> int \<Rightarrow> raw_record list option" where
  "fetch_historical_data src from_date to_date = fetch_attempts (src (from_date, to_date)) [0, 1, 2]"

text \<open>The window one call asks for, in minutes: \<open>fromdate\<close> is 09:00 of the first
  day, \<open>todate\<close> is 15:30 of the last.\<close>

definition request_window :: "int \<times> int \<Rightarrow> int \<times> int" where
  "request_window r = (fst r * 1440 + 540, snd r * 1440 + 930)"

text \<open>
  Data frames: the columns in order, each with its name and its values. The operations
  below are the library calls the scripts make, as far as the scripts depend on them.
  \<open>pd.DataFrame(data, columns=names)\<close> pads short rows and raises unless the longest row
  has as many fields as there are names.
\<close>

type_synonym frame = "(string \<times> cell list) list"

definition cell_at :: "raw_record \<Rightarrow> nat \<Rightarrow> cell" where
  "cell_at r j = (if j < length r then r ! j else NA)"

fun max_len :: "'a list list \<Rightarrow> nat" where
  "max_len [] = 0"
| "max_len (r # rs) = max (length r) (max_len rs)"

fun build_columns :: "raw_record list \<Rightarrow> nat \<Rightarrow> string list \<Rightarrow> frame" where
  "build_columns data j [] = []"
| "build_columns data j (c # cs) = (c, map (\<lambda>r. cell_at r j) data) # build_columns data (Suc j) cs"

datatype norm_error = MalformedRecord

definition DataFrame :: "raw_record list \<Rightarrow> string list \<Rightarrow> norm_error + frame" where
  "DataFrame data names =
     (if max_len data \<noteq> length names then Inl MalformedRecord
      else Inr (build_columns data 0 names))"

definition has_column :: "frame \<Rightarrow> string \<Rightarrow> bool" where
  "has_column df name = (name \<in> set (map fst df))"

definition column :: "frame \<Rightarrow> string \<Rightarrow> cell list" where
  "column df name = (case map_of df name of Some v \<Rightarrow> v | None \<Rightarrow> [])"

definition set_column :: "frame \<Rightarrow> string \<Rightarrow> cell list \<Rightarrow> frame" where
  "set_column df name vals =
     (if has_column df name then map (\<lambda>(n, v). if n = name then (n, vals) else (n, v)) df
      else df @ [(name, vals)])"

definition select_columns :: "frame \<Rightarrow> string list \<Rightarrow> frame option" where
  "select_columns df names =
     (if list_all (has_column df) names
      then Some (concat (map (\<lambda>name. filter (\<lambda>(n, v). n = name) df) names))
      else None)"

definition rename_column :: "string \<Rightarrow> string \<Rightarrow> frame \<Rightarrow> frame" where
  "rename_column old new df = map (\<lambda>(n, v). if n = old then (new, v) else (n, v)) df"

text \<open>\<open>str.split('T')\<close>: the pieces between the separators, always at least one.\<close>

fun split_on :: "char \<Rightarrow> string \<Rightarrow> string list" where
  "split_on c [] = [[]]"
| "split_on c (x # xs) =
     (if x = c then [] # split_on c xs
      else (case split_on c xs of [] \<Rightarrow> [[x]] | p # ps \<Rightarrow> (x # p) # ps))"

definition pieces :: "cell \<Rightarrow> string list" where
  "pieces c = (case c of S s \<Rightarrow> split_on CHR ''T'' s | N x \<Rightarrow> [] | NA \<Rightarrow> [])"

definition piece_at :: "string list \<Rightarrow> nat \<Rightarrow> cell" where
  "piece_at ps j = (if j < length ps then S (ps ! j) else NA)"

text \<open>
  \<open>str.extract(r'([^+]+)(\+\d{2}:\d{2})?')\<close> searches the first match: the first group
  is the longest run without \<open>+\<close> from the first character that is not \<open>+\<close>, the second
  group is the offset right after it, if there is one. A cell without a match gives two
  missing values. Characters are bytes here, so \<open>\d\<close> is an ASCII digit.
\<close>

definition is_digit :: "char \<Rightarrow> bool" where
  "is_digit c = (c \<in> set ''0123456789'')"

fun offset_match :: "string \<Rightarrow> string option" where
  "offset_match (p # h1 # h2 # c # m1 # m2 # rest) =
     (if p = CHR ''+'' \<and> is_digit h1 \<and> is_digit h2 \<and> c = CHR '':'' \<and> is_digit m1 \<and> is_digit m2
      then Some [p, h1, h2, c, m1, m2] else None)"
| "offset_match s = None"

definition extract_time :: "string \<Rightarrow> (string \<times> string option) option" where
  "extract_time t =
     (let u = dropWhile (\<lambda>c. c = CHR ''+'') t in
      if u = [] then None
      else Some (takeWhile (\<lambda>c. c \<noteq> CHR ''+'') u, offset_match (dropWhile (\<lambda>c. c \<noteq> CHR ''+'') u)))"

definition extract_cell :: "cell \<Rightarrow> cell \<times> cell" where
  "extract_cell c =
     (case c of
        S t \<Rightarrow>
          (case extract_time t of
             None \<Rightarrow> (NA, NA)
           | Some (g1, g2) \<Rightarrow> (S g1, (case g2 of None \<Rightarrow> NA | Some z \<Rightarrow> S z)))
      | N x \<Rightarrow> (NA, NA)
      | NA \<Rightarrow> (NA, NA))"

text \<open>
  The normalization of one chunk (lines 86 to 89 of the loop, the same four lines as in
  scripts/main.py). Assigning the split to the two columns \<open>Date\<close> and \<open>Time\<close> raises
  unless the split has exactly two columns, that is unless the most pieces a timestamp
  has is two. \<open>MalformedRecord\<close> stands for the exception the library raises.
\<close>

definition normalize :: "raw_record list \<Rightarrow> norm_error + frame" where
  "normalize data =
     (case DataFrame data [''DateTime'', ''Open'', ''High'', ''Low'', ''Close'', ''Volume''] of
        Inl e \<Rightarrow> Inl e
      | Inr df \<Rightarrow>
          (let ps = map pieces (column df ''DateTime'') in
           if max_len ps \<noteq> 2 then Inl MalformedRecord
           else
             (let df1 = set_column (set_column df ''Date'' (map (\<lambda>p. piece_at p 0) ps))
                          ''Time'' (map (\<lambda>p. piece_at p 1) ps);
                  ex = map extract_cell (column df1 ''Time'');
                  df2 = set_column (set_column df1 ''Time'' (map fst ex)) ''Timezone'' (map snd ex)
              in (case select_columns df2
                        [''Date'', ''Time'', ''Timezone'', ''Open'', ''High'', ''Low'', ''Close''] of
                    None \<Rightarrow> Inl MalformedRecord
                  | Some out \<Rightarrow> Inr out))))"

text \<open>
  The state of the loop: its variables, and the ranges announced by
  \<open>print("Fetching data from ... to ...")\<close>. The waits (\<open>time.sleep\<close>) and the log lines
  of the fetch are left out.
\<close>

record backfill =
  current_date :: int
  all_data :: "frame list"
  missing_dates :: "(int \<times> int) list"
  first_date :: "int option"
  last_date :: "int option"
  fetching :: "(int \<times> int) list"

text \<open>One iteration. The normalization is not inside any \<open>try\<close>: its exception ends
  the script.\<close>

definition loop_body :: "remote \<Rightarrow> backfill \<Rightarrow> norm_error + backfill" where
  "loop_body src s =
     (let next_date = current_date s + 30;
          from_date = current_date s;
          to_date = next_date;
          s0 = s\<lparr>fetching := fetching s @ [(from_date, to_date)]\<rparr>
      in (case fetch_historical_data src from_date to_date of
            Some d \<Rightarrow>
              (if d \<noteq> [] then
                 (case normalize d of
                    Inl e \<Rightarrow> Inl e
                  | Inr df \<Rightarrow>
                      Inr (s0\<lparr>first_date := (if first_date s = None then Some from_date
                                               else first_date s),
                               last_date := Some to_date,
                               all_data := all_data s @ [df],
                               current_date := next_date\<rparr>))
               else Inr (s0\<lparr>missing_dates := missing_dates s @ [(from_date, to_date)],
                            current_date := next_date\<rparr>))
          | None \<Rightarrow>
              Inr (s0\<lparr>missing_dates := missing_dates s @ [(from_date, to_date)],
                      current_date := next_date\<rparr>)))"

function main_loop :: "remote \<Rightarrow> int \<Rightarrow> backfill \<Rightarrow> norm_error + backfill" where
  "main_loop src end_date s =
     (if current_date s < end_date then
        (case loop_body src s of
           Inl e \<Rightarrow> Inl e
         | Inr s' \<Rightarrow> main_loop src end_date s')
      else Inr s)"
  by pat_completeness auto
termination
  by (relation "measure (\<lambda>(src, end_date, s). nat (end_date - current_date s))")
    (auto simp: loop_body_def Let_def split: option.splits sum.splits if_splits)

declare main_loop.simps [simp del]

definition init_backfill :: "int \<Rightarrow> backfill" where
  "init_backfill start =
     \<lparr>current_date = start, all_data = [], missing_dates = [], first_date = None,
      last_date = None, fetching = []\<rparr>"

text \<open>The script from the two dates on: \<open>Inl\<close> is the exception that ended it.\<close>

datatype run_error = BadYear | Aborted norm_error

definition backfill_run :: "remote \<Rightarrow> int \<Rightarrow> int \<Rightarrow> run_error + backfill" where
  "backfill_run src start_year end_year =
     (case jan1 start_year of
        Inl e \<Rightarrow> Inl BadYear
      | Inr start \<Rightarrow>
          (case jan1 end_year of
             Inl e \<Rightarrow> Inl BadYear
           | Inr end_date \<Rightarrow>
               (case main_loop src end_date (init_backfill start) of
                  Inl e \<Rightarrow> Inl (Aborted e)
                | Inr s \<Rightarrow> Inr s)))"

text \<open>
  \<open>load_data\<close> of scripts/backtest.py, on the table read from the file. The index is
  parsed by the library from the \<open>Date\<close> and \<open>Time\<close> cells of each row; the model keeps the
  pair. A column the code indexes and the table lacks is a \<open>KeyError\<close>.
\<close>

record loaded =
  index :: "(cell \<times> cell) list"
  columns :: frame

definition load_data :: "frame \<Rightarrow> py_error + loaded" where
  "load_data csv =
     (if \<not> has_column csv ''Date'' \<or> \<not> has_column csv ''Time'' then Inl KeyError
      else
        (let idx = zip (column csv ''Date'') (column csv ''Time'');
             df = rename_column ''Close'' ''close'' (rename_column ''Low'' ''low''
                    (rename_column ''High'' ''high'' (rename_column ''Open'' ''open'' csv)));
             df' = (if \<not> has_column df ''Volume''
                    then set_column df ''volume'' (replicate (length idx) (N 0))
                    else rename_column ''Volume'' ''volume'' df)
         in (case select_columns df' [''open'', ''high'', ''low'', ''close'', ''volume''] of
               None \<Rightarrow> Inl KeyError
             | Some out \<Rightarrow> Inr \<lparr>index = idx, columns = out\<rparr>)))"

text \<open>The chunks whose fetch gave up: \<open>fetch_historical_data\<close> returned \<open>None\<close>.\<close>

definition failed_range :: "remote \<Rightarrow> int \<times> int \<Rightarrow> bool" where
  "failed_range src r = (fetch_historical_data src (fst r) (snd r) = None)"

text \<open>
  Two remote sources used as examples: one that answers every request with a single
  five-field record (a candle without volume), and one whose every call raises.
\<close>

definition remote_short_rows :: remote where
  "remote_short_rows r attempt =
     Returns (RespDict (Some [[S ''2005-01-03T09:15:00+05:30'', N 100, N 101, N 99, N 100]]))"

definition remote_down :: remote where
  "remote_down r attempt = Raises"

text \<open>Re-joining the three fields of a normalized row, in the spec's words: date,
  \<open>T\<close>, time and the offset (nothing for a missing offset).\<close>

definition join_timestamp :: "cell \<Rightarrow> cell \<Rightarrow> cell \<Rightarrow> string option" where
  "join_timestamp date time tz =
     (case (date, time) of
        (S d, S t) \<Rightarrow> Some (d @ ''T'' @ t @ (case tz of S z \<Rightarrow> z | N x \<Rightarrow> [] | NA \<Rightarrow> []))
      | _ \<Rightarrow> None)"

section \<open>Properties of the strategy\<close>


lemma long_exit_length: "length (fst (snd (long_exit rnd p psize close s))) \<le> 1"
  by (simp add: long_exit_def split: option.split)

lemma short_exit_length: "length (fst (snd (short_exit rnd p psize close s))) \<le> 1"
  by (simp add: short_exit_def split: option.split)

lemma long_exit_inactive: "\<not> psize > 0 \<Longrightarrow> long_exit rnd p psize close s = (s, [], [])"
  by (simp add: long_exit_def)

lemma short_exit_inactive: "\<not> psize < 0 \<Longrightarrow> short_exit rnd p psize close s = (s, [], [])"
  by (simp add: short_exit_def)

lemma next_bar_pending: "order s \<noteq> None \<Longrightarrow> next_bar rnd p psize crossover close s = (s, [], [])"
  by (simp add: next_bar_def)

lemma next_bar_length: "length (fst (snd (next_bar rnd p psize crossover close s))) \<le> 1"
proof (cases "psize > 0")
  case True
  then have "short_exit rnd p psize close s1 = (s1, [], [])" for s1
    by (simp add: short_exit_inactive)
  then show ?thesis
    using long_exit_length [of rnd p psize close s]
    by (simp add: next_bar_def split: prod.split)
next
  case False
  then have "long_exit rnd p psize close s = (s, [], [])"
    by (simp add: long_exit_inactive)
  then show ?thesis
    using short_exit_length [of rnd p psize close s]
    by (simp add: next_bar_def split: prod.split)
qed

lemma long_exit_marker:
  "long_exit rnd p psize close s = (s1, sub, lg) \<Longrightarrow>
     entry_price s1 = entry_price s \<and> (if sub = [] then s1 = s else order s1 \<noteq> None)"
  by (auto simp: long_exit_def split: option.splits if_splits)

lemma short_exit_marker:
  "short_exit rnd p psize close s = (s1, sub, lg) \<Longrightarrow>
     entry_price s1 = entry_price s \<and> (if sub = [] then s1 = s else order s1 \<noteq> None)"
  by (auto simp: short_exit_def split: option.splits if_splits)

lemma next_bar_marker:
  assumes "next_bar rnd p psize crossover close s = (s1, sub, lg)"
  shows "if sub = [] then s1 = s else order s1 \<noteq> None"
proof (cases "order s \<noteq> None \<or> (psize = 0 \<and> crossover \<noteq> 0)")
  case True
  with assms show ?thesis by (auto simp: next_bar_def split: if_splits)
next
  case False
  obtain a subA lgA where A: "long_exit rnd p psize close s = (a, subA, lgA)"
    by (cases "long_exit rnd p psize close s") auto
  obtain b subB lgB where B: "short_exit rnd p psize close a = (b, subB, lgB)"
    by (cases "short_exit rnd p psize close a") auto
  from False assms A B have eq: "s1 = b" "sub = subA @ subB"
    by (auto simp: next_bar_def split: if_splits)
  show ?thesis
  proof (cases "psize > 0")
    case True
    then have "b = a" "subB = []" using B by (simp_all add: short_exit_inactive)
    with eq long_exit_marker [OF A] show ?thesis by simp
  next
    case False
    then have "a = s" "subA = []" using A by (simp_all add: long_exit_inactive)
    with eq short_exit_marker [OF B] show ?thesis by simp
  qed
qed

lemma run_Bar_submitted:
  "next_bar rnd p psize crossover close s = (s1, sub, lg) \<Longrightarrow>
     fst (snd (run rnd p s (Bar psize crossover close # evs))) = sub @ fst (snd (run rnd p s1 evs))"
  by (simp split: prod.split)

lemma run_Notify_submitted:
  "fst (snd (run rnd p s (Notify ord # evs))) = fst (snd (run rnd p (fst (notify_order ord s)) evs))"
  by (simp split: prod.split)

lemma notify_order_completed_marker:
  "status ord = Completed \<Longrightarrow> order (fst (notify_order ord s)) = None"
  by (simp add: notify_order_def split: side.split)

lemma notify_order_other: "status ord \<noteq> Completed \<Longrightarrow> notify_order ord s = (s, [])"
  by (simp add: notify_order_def)

lemma run_outstanding:
  "length (fst (snd (run rnd p s evs))) \<le> completed_count evs + (if order s = None then 1 else 0)"
proof (induction evs arbitrary: s)
  case Nil
  then show ?case by simp
next
  case (Cons ev evs)
  show ?case
  proof (cases ev)
    case (Bar psize crossover close)
    obtain s1 sub lg where N: "next_bar rnd p psize crossover close s = (s1, sub, lg)"
      by (cases "next_bar rnd p psize crossover close s") auto
    have len: "length sub \<le> 1"
      using next_bar_length [of rnd p psize crossover close s] N by simp
    have mk: "if sub = [] then s1 = s else order s1 \<noteq> None"
      using next_bar_marker [OF N] .
    have pend: "order s \<noteq> None \<Longrightarrow> sub = []"
      using next_bar_pending [of s rnd p psize crossover close] N by simp
    have split: "fst (snd (run rnd p s (ev # evs))) = sub @ fst (snd (run rnd p s1 evs))"
      unfolding Bar by (rule run_Bar_submitted [OF N])
    have cc: "completed_count (ev # evs) = completed_count evs"
      unfolding Bar by simp
    show ?thesis
    proof (cases "sub = []")
      case True
      with mk have "s1 = s" by simp
      with True split cc Cons.IH [of s] show ?thesis by simp
    next
      case False
      with mk have m1: "order s1 \<noteq> None" by simp
      have "order s = None"
      proof (rule ccontr)
        assume "order s \<noteq> None"
        then have "sub = []" by (rule pend)
        with False show False by simp
      qed
      moreover from m1 Cons.IH [of s1]
      have "length (fst (snd (run rnd p s1 evs))) \<le> completed_count evs" by auto
      ultimately show ?thesis using len split cc by simp
    qed
  next
    case (Notify ord)
    have split: "fst (snd (run rnd p s (ev # evs))) = fst (snd (run rnd p (fst (notify_order ord s)) evs))"
      unfolding Notify by (rule run_Notify_submitted)
    show ?thesis
    proof (cases "status ord = Completed")
      case True
      then have cc: "completed_count (ev # evs) = Suc (completed_count evs)"
        unfolding Notify by simp
      from True have "order (fst (notify_order ord s)) = None"
        by (rule notify_order_completed_marker)
      with split cc Cons.IH [of "fst (notify_order ord s)"] show ?thesis by simp
    next
      case False
      then have cc: "completed_count (ev # evs) = completed_count evs"
        unfolding Notify by simp
      from False have "notify_order ord s = (s, [])" by (rule notify_order_other)
      with split cc Cons.IH [of s] show ?thesis by simp
    qed
  qed
qed

lemma run_stuck:
  "order s \<noteq> None \<Longrightarrow> completed_count evs = 0 \<Longrightarrow> run rnd p s evs = (s, [], [])"
proof (induction evs)
  case Nil
  then show ?case by simp
next
  case (Cons ev evs)
  show ?case
  proof (cases ev)
    case (Bar psize crossover close)
    with Cons show ?thesis by (simp add: next_bar_pending)
  next
    case (Notify ord)
    with Cons.prems have ns: "status ord \<noteq> Completed" and cc: "completed_count evs = 0"
      by (simp_all split: if_splits)
    with Cons Notify show ?thesis by (simp add: notify_order_other)
  qed
qed


lemma long_exit_sides: "set (fst (snd (long_exit rnd p psize close s))) \<subseteq> {Sell}"
  by (simp add: long_exit_def split: option.split)

lemma short_exit_sides: "set (fst (snd (short_exit rnd p psize close s))) \<subseteq> {Buy}"
  by (simp add: short_exit_def split: option.split)

lemma next_bar_long_sides:
  assumes "psize > 0"
  shows "Buy \<notin> set (fst (snd (next_bar rnd p psize crossover close s)))"
proof -
  have "short_exit rnd p psize close s1 = (s1, [], [])" for s1
    using assms by (simp add: short_exit_inactive)
  then show ?thesis
    using assms long_exit_sides [of rnd p psize close s]
    by (auto simp: next_bar_def split: prod.split)
qed

lemma next_bar_short_sides:
  assumes "psize < 0"
  shows "Sell \<notin> set (fst (snd (next_bar rnd p psize crossover close s)))"
proof -
  have "long_exit rnd p psize close s = (s, [], [])"
    using assms by (simp add: long_exit_inactive)
  then show ?thesis
    using assms short_exit_sides [of rnd p psize close s]
    by (auto simp: next_bar_def split: prod.split)
qed

lemma next_bar_long_target:
  assumes "order s = None" "psize > 0" "entry_price s = Some e" "e \<noteq> 0"
    and "close \<ge> rnd (e * rnd (1 + target p))"
  shows "next_bar rnd p psize crossover close s = (s\<lparr>order := Some Sell\<rparr>, [Sell], [LongTarget close])"
proof -
  have "long_exit rnd p psize close s = (s\<lparr>order := Some Sell\<rparr>, [Sell], [LongTarget close])"
    using assms by (simp add: long_exit_def truthy_price_def)
  moreover have "short_exit rnd p psize close (s\<lparr>order := Some Sell\<rparr>) = (s\<lparr>order := Some Sell\<rparr>, [], [])"
    using assms(2) by (simp add: short_exit_inactive)
  ultimately show ?thesis using assms(1,2) by (simp add: next_bar_def)
qed

lemma next_bar_short_target:
  assumes "order s = None" "psize < 0" "entry_price s = Some e" "e \<noteq> 0"
    and "close \<le> rnd (e * rnd (1 - target p))"
  shows "next_bar rnd p psize crossover close s = (s\<lparr>order := Some Buy\<rparr>, [Buy], [ShortTarget close])"
proof -
  have "long_exit rnd p psize close s = (s, [], [])"
    using assms(2) by (simp add: long_exit_inactive)
  moreover have "short_exit rnd p psize close s = (s\<lparr>order := Some Buy\<rparr>, [Buy], [ShortTarget close])"
    using assms by (simp add: short_exit_def truthy_price_def)
  ultimately show ?thesis using assms(1,2) by (simp add: next_bar_def)
qed

text \<open>When the target condition, as computed, does not hold and the stop-loss condition
  does, the long exit goes through the stop-loss branch: the branch follows the rounded
  thresholds.\<close>

lemma next_bar_long_stop:
  assumes "order s = None" "psize > 0" "entry_price s = Some e" "e \<noteq> 0"
    and "\<not> close \<ge> rnd (e * rnd (1 + target p))"
    and "close \<le> rnd (e * rnd (1 - stop_loss p))"
  shows "next_bar rnd p psize crossover close s = (s\<lparr>order := Some Sell\<rparr>, [Sell], [LongStop close])"
proof -
  have "long_exit rnd p psize close s = (s\<lparr>order := Some Sell\<rparr>, [Sell], [LongStop close])"
    using assms by (simp add: long_exit_def truthy_price_def)
  moreover have "short_exit rnd p psize close (s\<lparr>order := Some Sell\<rparr>) = (s\<lparr>order := Some Sell\<rparr>, [], [])"
    using assms(2) by (simp add: short_exit_inactive)
  ultimately show ?thesis using assms(1,2) by (simp add: next_bar_def)
qed

text \<open>
  C1, as stated, fails on an exit fill. A long position entered at 100 is closed by a
  sell order completed at 100.3: the position is flat afterwards, but \<open>entry_price\<close>
  holds the exit's fill price; it is not cleared.
\<close>

theorem exit_fill_entry_price_not_cleared:
  "entry_price (fst (notify_order
       \<lparr>status = Completed, ordtype = Sell, executed_price = 1003 / 10, executed_size = 1\<rparr>
       \<lparr>order = Some Sell, entry_price = Some 100\<rparr>)) = Some (1003 / 10)
   \<and> side_of (position_after 1
       \<lparr>status = Completed, ordtype = Sell, executed_price = 1003 / 10, executed_size = 1\<rparr>) = Flat"
  by (simp add: notify_order_def position_after_def side_of_def)

text \<open>
  C1 (amended): on every notification of a completed order the pending-order marker is
  cleared and \<open>entry_price\<close> is set to the executed price, for an exit fill as for an
  entry fill (it is never unset). With the broker's position update, an entry fill from
  a flat position gives Long for a buy and Short for a sell, and a fill of the whole
  position in the opposite direction gives Flat.
\<close>

theorem notify_order_completed_fill:
  assumes "status ord = Completed"
  shows "order (fst (notify_order ord s)) = None
    \<and> entry_price (fst (notify_order ord s)) = Some (executed_price ord)
    \<and> (psize = 0 \<and> executed_size ord > 0 \<longrightarrow>
         side_of (position_after psize ord) = (case ordtype ord of Buy \<Rightarrow> Long | Sell \<Rightarrow> Short))
    \<and> ((psize > 0 \<and> ordtype ord = Sell \<and> executed_size ord = psize)
         \<or> (psize < 0 \<and> ordtype ord = Buy \<and> executed_size ord = - psize) \<longrightarrow>
         side_of (position_after psize ord) = Flat)"
  using assms
  by (auto simp: notify_order_def position_after_def side_of_def split: side.splits)

text \<open>C1, at a completed entry buy of size 1 at price 100 from the initial state.\<close>

theorem notify_order_completed_fill_witness:
  "order (fst (notify_order
       \<lparr>status = Completed, ordtype = Buy, executed_price = 100, executed_size = 1\<rparr> init_strategy)) = None
   \<and> entry_price (fst (notify_order
       \<lparr>status = Completed, ordtype = Buy, executed_price = 100, executed_size = 1\<rparr> init_strategy)) = Some 100
   \<and> side_of (position_after 0
       \<lparr>status = Completed, ordtype = Buy, executed_price = 100, executed_size = 1\<rparr>) = Long"
  using notify_order_completed_fill [where ord = "\<lparr>status = Completed, ordtype = Buy, executed_price = 100, executed_size = 1\<rparr>"
      and s = init_strategy and psize = 0]
  by simp

text \<open>
  C2: a bar that starts with the pending-order marker set submits nothing and leaves
  the strategy unchanged; every bar submits at most one order, and a bar that submits
  one sets the marker. Hence over any run of bars and notifications the orders submitted
  exceed the completed ones by at most one (by none when the run starts with the marker
  set): at most one order is outstanding. The position is the single signed size the
  broker keeps, and a bar never adds to an open position: with a long position open it
  submits no buy, with a short position open no sell, so the only order of such a bar
  is the exit.
\<close>

theorem next_bar_at_most_one_order:
  "(order s \<noteq> None \<longrightarrow> next_bar rnd p psize crossover close s = (s, [], []))
   \<and> length (fst (snd (next_bar rnd p psize crossover close s))) \<le> 1
   \<and> (fst (snd (next_bar rnd p psize crossover close s)) \<noteq> [] \<longrightarrow>
        order (fst (next_bar rnd p psize crossover close s)) \<noteq> None)
   \<and> (psize > 0 \<longrightarrow> Buy \<notin> set (fst (snd (next_bar rnd p psize crossover close s))))
   \<and> (psize < 0 \<longrightarrow> Sell \<notin> set (fst (snd (next_bar rnd p psize crossover close s))))
   \<and> length (fst (snd (run rnd p s evs))) \<le> completed_count evs + (if order s = None then 1 else 0)"
proof -
  obtain s1 sub lg where N: "next_bar rnd p psize crossover close s = (s1, sub, lg)"
    by (cases "next_bar rnd p psize crossover close s") auto
  have "sub \<noteq> [] \<longrightarrow> order s1 \<noteq> None"
    using next_bar_marker [OF N] by simp
  with N have "fst (snd (next_bar rnd p psize crossover close s)) \<noteq> [] \<longrightarrow>
        order (fst (next_bar rnd p psize crossover close s)) \<noteq> None" by simp
  then show ?thesis
    using next_bar_pending [of s rnd p psize crossover close]
      next_bar_length [of rnd p psize crossover close s] run_outstanding [of rnd p s evs]
      next_bar_long_sides [of psize rnd p crossover close s]
      next_bar_short_sides [of psize rnd p crossover close s]
    by blast
qed

text \<open>C2, at a bar with a pending sell order in a long position, and a run with one
  entry and one exit (target 0.25, stop-loss 0.125: thresholds 125 and 87.5).\<close>

theorem next_bar_at_most_one_order_witness:
  "next_bar id \<lparr>target = 1 / 4, stop_loss = 1 / 8\<rparr> 1 0 130
       \<lparr>order = Some Sell, entry_price = Some 100\<rparr>
     = (\<lparr>order = Some Sell, entry_price = Some 100\<rparr>, [], [])
   \<and> Buy \<notin> set (fst (snd (next_bar id \<lparr>target = 1 / 4, stop_loss = 1 / 8\<rparr> 1 0 130
       \<lparr>order = Some Sell, entry_price = Some 100\<rparr>)))
   \<and> fst (snd (run id \<lparr>target = 1 / 4, stop_loss = 1 / 8\<rparr> init_strategy
        [Bar 0 1 100,
         Notify \<lparr>status = Completed, ordtype = Buy, executed_price = 100, executed_size = 1\<rparr>,
         Bar 1 1 130, Bar 1 0 131])) = [Buy, Sell]"
  using next_bar_at_most_one_order [where s = "\<lparr>order = Some Sell, entry_price = Some 100\<rparr>"
      and p = "\<lparr>target = 1 / 4, stop_loss = 1 / 8\<rparr>" and rnd = id
      and psize = 1 and crossover = 0 and close = 130 and evs = "[]"]
  by (simp add: next_bar_def long_exit_def short_exit_def notify_order_def truthy_price_def
      init_strategy_def)

text \<open>
  C3, as stated, fails on a bar that starts with an order pending. A long position of
  size 1 with entry price 100, target 0.25 and stop-loss -0.5 has the thresholds 125 and
  150 (every operation is exact in floating point); the close 130 meets both conditions,
  but a sell order is still pending, and the bar submits nothing.
\<close>

theorem pending_order_blocks_target_exit:
  "fst (snd (next_bar id \<lparr>target = 1 / 4, stop_loss = - (1 / 2)\<rparr> 1 0 130
       \<lparr>order = Some Sell, entry_price = Some 100\<rparr>)) = []
   \<and> truthy_price (entry_price \<lparr>order = Some Sell, entry_price = Some 100\<rparr>)
   \<and> (130 :: real) \<ge> id (100 * id (1 + 1 / 4))
   \<and> (130 :: real) \<le> id (100 * id (1 - - (1 / 2)))"
  by (simp add: next_bar_def truthy_price_def)

text \<open>
  C3 (amended): on a bar with a long position and an entry price that is set and not
  zero (one Python takes as true), a close that meets both the target and the stop-loss
  condition, as the code computes them, never takes the stop-loss branch; and when no
  order is pending, the bar submits the sell through the target branch. The short side
  is the mirror image, with a buy. A bar that starts with an order pending submits
  nothing.
\<close>

theorem target_checked_before_stop:
  assumes "entry_price s = Some e" and "e \<noteq> 0"
  shows "(psize > 0 \<and> close \<ge> rnd (e * rnd (1 + target p))
            \<and> close \<le> rnd (e * rnd (1 - stop_loss p)) \<longrightarrow>
           LongStop close \<notin> set (snd (snd (next_bar rnd p psize crossover close s)))
           \<and> (order s = None \<longrightarrow>
                next_bar rnd p psize crossover close s
                  = (s\<lparr>order := Some Sell\<rparr>, [Sell], [LongTarget close])))
       \<and> (psize < 0 \<and> close \<le> rnd (e * rnd (1 - target p))
            \<and> close \<ge> rnd (e * rnd (1 + stop_loss p)) \<longrightarrow>
           ShortStop close \<notin> set (snd (snd (next_bar rnd p psize crossover close s)))
           \<and> (order s = None \<longrightarrow>
                next_bar rnd p psize crossover close s
                  = (s\<lparr>order := Some Buy\<rparr>, [Buy], [ShortTarget close])))
       \<and> (order s \<noteq> None \<longrightarrow> next_bar rnd p psize crossover close s = (s, [], []))"
proof (cases "order s = None")
  case True
  show ?thesis
    using next_bar_long_target
        [where psize = psize and close = close and p = p and crossover = crossover
          and rnd = rnd, OF True _ assms]
      next_bar_short_target
        [where psize = psize and close = close and p = p and crossover = crossover
          and rnd = rnd, OF True _ assms]
      True
    by simp
next
  case False
  then have "next_bar rnd p psize crossover close s = (s, [], [])"
    by (rule next_bar_pending)
  with False show ?thesis by simp
qed

text \<open>C3, at entry 100, target 0.25 and stop-loss -0.5 (thresholds 125 and 150), close
  130 and no order pending: both conditions hold and the target branch is taken.\<close>

theorem target_checked_before_stop_witness:
  "next_bar id \<lparr>target = 1 / 4, stop_loss = - (1 / 2)\<rparr> 1 0 130
       \<lparr>order = None, entry_price = Some 100\<rparr>
     = (\<lparr>order = Some Sell, entry_price = Some 100\<rparr>, [Sell], [LongTarget 130])
   \<and> (130 :: real) \<ge> id (100 * id (1 + 1 / 4))
   \<and> (130 :: real) \<le> id (100 * id (1 - - (1 / 2)))"
  using target_checked_before_stop [where s = "\<lparr>order = None, entry_price = Some 100\<rparr>"
      and e = 100 and psize = 1 and close = 130
      and p = "\<lparr>target = 1 / 4, stop_loss = - (1 / 2)\<rparr>" and crossover = 0 and rnd = id]
  by simp

text \<open>
  C7: a notification whose status is not \<open>Completed\<close> changes nothing, so it does not
  clear the marker; and from a strategy whose marker is set, a run with no completed
  notification submits no order, logs no exit and leaves the strategy as it is.
\<close>

theorem non_completed_notification_blocks:
  "(status ord \<noteq> Completed \<longrightarrow> notify_order ord s = (s, []))
   \<and> (order s \<noteq> None \<and> completed_count evs = 0 \<longrightarrow> run rnd p s evs = (s, [], []))"
  using notify_order_other [of ord s] run_stuck [of s evs rnd p] by blast

text \<open>C7, at a rejected entry order followed by three bars with crossover signals.\<close>

theorem non_completed_notification_blocks_witness:
  "run id default_params \<lparr>order = Some Buy, entry_price = None\<rparr>
     [Notify \<lparr>status = Rejected, ordtype = Buy, executed_price = 0, executed_size = 0\<rparr>,
      Bar 0 1 100, Bar 0 (- 1) 101, Bar 0 1 102]
   = (\<lparr>order = Some Buy, entry_price = None\<rparr>, [], [])"
proof -
  have "order \<lparr>order = Some Buy, entry_price = None\<rparr> \<noteq> None
    \<and> completed_count
        [Notify \<lparr>status = Rejected, ordtype = Buy, executed_price = 0, executed_size = 0\<rparr>,
         Bar 0 1 100, Bar 0 (- 1) 101, Bar 0 1 102] = 0"
    by simp
  then show ?thesis
    using non_completed_notification_blocks [where s = "\<lparr>order = Some Buy, entry_price = None\<rparr>" and p = default_params and rnd = id
      and evs = "[Notify \<lparr>status = Rejected, ordtype = Buy, executed_price = 0, executed_size = 0\<rparr>,
        Bar 0 1 100, Bar 0 (- 1) 101, Bar 0 1 102]"]
    by blast
qed

text \<open>
  C10: the win probability is \<open>winning / total * 100\<close> when the total is positive and 0
  when it is 0; it never raises; and an analysis without closed trades reports 0.
\<close>

theorem win_probability_guarded:
  "(total_trades > 0 \<longrightarrow>
      win_probability winning_trades total_trades
        = Inr (real_of_int winning_trades / real_of_int total_trades * 100))
   \<and> win_probability winning_trades 0 = Inr 0
   \<and> (\<exists>r. win_probability winning_trades total_trades = Inr r)
   \<and> (get_count a ''total'' ''closed'' = 0 \<longrightarrow> summary_win_probability a = Inr 0)"
  by (simp add: win_probability_def true_div_def summary_win_probability_def)

text \<open>C10, at 3 wins of 4 trades, and at the analysis of a run without trades.\<close>

theorem win_probability_guarded_witness:
  "win_probability 3 4 = Inr 75
   \<and> summary_win_probability [''total'' \<mapsto> [''total'' \<mapsto> 0]] = Inr 0"
  using win_probability_guarded [where total_trades = 4 and winning_trades = 3
      and a = "[''total'' \<mapsto> [''total'' \<mapsto> 0]]"]
  by (simp add: get_count_def)

section \<open>Properties of the backfill and the normalizer\<close>

lemma date_ranges_step:
  "cur < end_date \<Longrightarrow> date_ranges cur end_date = (cur, cur + 30) # date_ranges (cur + 30) end_date"
  by (simp add: date_ranges.simps [of cur end_date])

lemma date_ranges_done: "\<not> cur < end_date \<Longrightarrow> date_ranges cur end_date = []"
  by (simp add: date_ranges.simps [of cur end_date])

lemma date_ranges_nth:
  "i < length (date_ranges cur end_date) \<Longrightarrow>
     date_ranges cur end_date ! i = (cur + 30 * int i, cur + 30 * int i + 30)
     \<and> cur + 30 * int i < end_date"
proof (induction cur end_date arbitrary: i rule: date_ranges.induct)
  case (1 cur end_date)
  show ?case
  proof (cases "cur < end_date")
    case False
    with "1.prems" show ?thesis by (simp add: date_ranges_done)
  next
    case True
    note step = date_ranges_step [OF True]
    show ?thesis
    proof (cases i)
      case 0
      with True step show ?thesis by simp
    next
      case (Suc j)
      with "1.prems" step have "j < length (date_ranges (cur + 30) end_date)" by simp
      from "1.IH" [OF True this] Suc step show ?thesis by (simp add: algebra_simps)
    qed
  qed
qed

lemma date_ranges_length:
  "cur + 30 * int k < end_date \<Longrightarrow> k < length (date_ranges cur end_date)"
proof (induction k arbitrary: cur)
  case 0
  then show ?case by (simp add: date_ranges_step)
next
  case (Suc k)
  then have lt: "cur < end_date" by simp
  from Suc.prems have "(cur + 30) + 30 * int k < end_date" by simp
  from Suc.IH [OF this] show ?case by (simp add: date_ranges_step [OF lt])
qed

lemma date_ranges_member:
  assumes "r \<in> set (date_ranges cur end_date)"
  shows "\<exists>i. r = (cur + 30 * int i, cur + 30 * int i + 30) \<and> cur + 30 * int i < end_date"
proof -
  from assms obtain i where "i < length (date_ranges cur end_date)" "date_ranges cur end_date ! i = r"
    by (auto simp: in_set_conv_nth)
  with date_ranges_nth [of i cur end_date] show ?thesis by auto
qed

lemma date_ranges_distinct: "distinct (date_ranges cur end_date)"
proof (induction cur end_date rule: date_ranges.induct)
  case (1 cur end_date)
  show ?case
  proof (cases "cur < end_date")
    case False
    then show ?thesis by (simp add: date_ranges_done)
  next
    case True
    have "(cur, cur + 30) \<notin> set (date_ranges (cur + 30) end_date)"
    proof
      assume "(cur, cur + 30) \<in> set (date_ranges (cur + 30) end_date)"
      from date_ranges_member [OF this] show False by auto
    qed
    with "1.IH" [OF True] show ?thesis by (simp add: date_ranges_step [OF True])
  qed
qed

lemma date_ranges_last:
  "cur < end_date \<Longrightarrow>
     fst (last (date_ranges cur end_date)) < end_date \<and> end_date \<le> snd (last (date_ranges cur end_date))"
proof (induction cur end_date rule: date_ranges.induct)
  case (1 cur end_date)
  note step = date_ranges_step [OF "1.prems"]
  show ?case
  proof (cases "cur + 30 < end_date")
    case True
    then have "date_ranges (cur + 30) end_date \<noteq> []" by (simp add: date_ranges_step)
    with "1.IH" [OF "1.prems" True] step show ?thesis by simp
  next
    case False
    then have "date_ranges (cur + 30) end_date = []" by (simp add: date_ranges_done)
    with step "1.prems" False show ?thesis by simp
  qed
qed

lemma date_ranges_cover:
  "cur \<le> x \<Longrightarrow> x < end_date \<Longrightarrow> \<exists>r \<in> set (date_ranges cur end_date). fst r \<le> x \<and> x < snd r"
proof (induction cur end_date rule: date_ranges.induct)
  case (1 cur end_date)
  from "1.prems" have lt: "cur < end_date" by simp
  note step = date_ranges_step [OF lt]
  show ?case
  proof (cases "x < cur + 30")
    case True
    with "1.prems" step show ?thesis by simp
  next
    case False
    then have "cur + 30 \<le> x" by simp
    from "1.IH" [OF lt this "1.prems"(2)] step show ?thesis by auto
  qed
qed

lemma date_ranges_unique:
  assumes "r1 \<in> set (date_ranges cur end_date)" "r2 \<in> set (date_ranges cur end_date)"
    and "fst r1 \<le> x" "x < snd r1" "fst r2 \<le> x" "x < snd r2"
  shows "r1 = r2"
proof -
  from date_ranges_member [OF assms(1)] obtain i where
    r1: "r1 = (cur + 30 * int i, cur + 30 * int i + 30)" by auto
  from date_ranges_member [OF assms(2)] obtain j where
    r2: "r2 = (cur + 30 * int j, cur + 30 * int j + 30)" by auto
  from assms(3-6) r1 r2 have "int i = int j" by simp
  with r1 r2 show ?thesis by simp
qed

lemma date_ranges_contiguous:
  assumes "Suc i < length (date_ranges cur end_date)"
  shows "snd (date_ranges cur end_date ! i) = fst (date_ranges cur end_date ! Suc i)"
proof -
  from assms have "i < length (date_ranges cur end_date)" by simp
  from date_ranges_nth [OF this] date_ranges_nth [OF assms] show ?thesis by simp
qed

lemma jan1_addition_in_range:
  assumes "jan1 year = Inr end_date" and "cur < end_date"
  shows "cur + 30 \<le> 3652059"
proof -
  from assms(1) have y: "1 \<le> year" "year \<le> 9999"
    and e: "end_date = (year - 1) * 365 + (year - 1) div 4 - (year - 1) div 100 + (year - 1) div 400 + 1"
    by (auto simp: jan1_def days_before_year_def Let_def split: if_splits)
  from y have "(year - 1) div 4 \<le> 9998 div 4" "(year - 1) div 400 \<le> 9998 div 400"
    by (simp_all add: zdiv_mono1)
  moreover from y have "0 \<le> (year - 1) div 100" by simp
  ultimately have "(year - 1) div 4 \<le> 2499" "(year - 1) div 400 \<le> 24" "0 \<le> (year - 1) div 100"
    by simp_all
  with e y assms(2) show ?thesis by simp
qed

lemma consecutive_requests_overlap:
  assumes "Suc i < length (date_ranges cur end_date)"
  shows "fst (request_window (date_ranges cur end_date ! Suc i))
      < snd (request_window (date_ranges cur end_date ! i))"
proof -
  from assms have "i < length (date_ranges cur end_date)" by simp
  from date_ranges_nth [OF this] date_ranges_nth [OF assms] show ?thesis
    by (simp add: request_window_def)
qed

text \<open>
  C4, as stated, fails for the span of the script, 2005-01-01 to 2025-01-01 (7305 days,
  not a multiple of 30): the last chunk, the 244th, runs from ordinal 739237 to 739267,
  fifteen days past the end of the span at 739252. The loop never cuts \<open>next_date\<close> down
  to \<open>end_date\<close>.
\<close>

theorem last_chunk_overruns_span:
  "jan1 2005 = Inr 731947 \<and> jan1 2025 = Inr 739252
   \<and> (739237, 739267) \<in> set (date_ranges 731947 739252) \<and> (739252 :: int) < 739267"
proof -
  have "243 < length (date_ranges 731947 739252)"
    using date_ranges_length [of 731947 243 739252] by simp
  from date_ranges_nth [OF this] this have "(739237, 739267) \<in> set (date_ranges 731947 739252)"
    by (auto simp: in_set_conv_nth)
  then show ?thesis by (simp add: jan1_def days_before_year_def)
qed

text \<open>
  C4 (amended): for a span that is not empty, the ranges start at the start of the span,
  each range ends where the next one starts, every range, the last one too, is exactly
  30 days long, the last range starts before the end of the span and ends at or after
  it, and every day of the span lies in exactly one range taken as the half-open
  interval from its first day to its last.
\<close>

theorem date_ranges_partition:
  assumes "start < end_date"
  shows "date_ranges start end_date \<noteq> []
    \<and> fst (hd (date_ranges start end_date)) = start
    \<and> (\<forall>i. Suc i < length (date_ranges start end_date) \<longrightarrow>
          snd (date_ranges start end_date ! i) = fst (date_ranges start end_date ! Suc i))
    \<and> (\<forall>r \<in> set (date_ranges start end_date). snd r = fst r + 30)
    \<and> fst (last (date_ranges start end_date)) < end_date
    \<and> end_date \<le> snd (last (date_ranges start end_date))
    \<and> (\<forall>x. start \<le> x \<and> x < end_date \<longrightarrow>
          (\<exists>!r. r \<in> set (date_ranges start end_date) \<and> fst r \<le> x \<and> x < snd r))"
proof -
  let ?rs = "date_ranges start end_date"
  have a: "?rs \<noteq> [] \<and> fst (hd ?rs) = start"
    by (simp add: date_ranges_step [OF assms])
  have b: "\<forall>i. Suc i < length ?rs \<longrightarrow> snd (?rs ! i) = fst (?rs ! Suc i)"
    using date_ranges_contiguous by blast
  have c: "\<forall>r \<in> set ?rs. snd r = fst r + 30"
    using date_ranges_member by fastforce
  have d: "fst (last ?rs) < end_date \<and> end_date \<le> snd (last ?rs)"
    by (rule date_ranges_last [OF assms])
  have e: "\<exists>!r. r \<in> set ?rs \<and> fst r \<le> x \<and> x < snd r" if "start \<le> x \<and> x < end_date" for x
  proof -
    from that date_ranges_cover [of start x end_date]
    obtain r where "r \<in> set ?rs" "fst r \<le> x" "x < snd r" by auto
    then show ?thesis using date_ranges_unique [of _ start end_date r x] by blast
  qed
  from a b c d e show ?thesis by blast
qed

text \<open>C4, at a span of 65 days from 2005-01-01: three ranges, the last one 25 days
  longer than the span.\<close>

theorem date_ranges_partition_witness:
  "date_ranges 731947 732012 = [(731947, 731977), (731977, 732007), (732007, 732037)]"
  using date_ranges_partition [of 731947 732012]
  by (simp add: date_ranges_step date_ranges_done)

lemma fetch_attempts_nonempty: "fetch_attempts call as = Some d \<Longrightarrow> d \<noteq> []"
  by (induction as) (auto simp: attempt_data_def split: option.splits api_outcome.splits response.splits if_splits)

lemma fetch_nonempty: "fetch_historical_data src f t = Some d \<Longrightarrow> d \<noteq> []"
  unfolding fetch_historical_data_def by (rule fetch_attempts_nonempty)

lemma fetch_exhausted:
  "attempt_data (src (f, t) 0) = None \<Longrightarrow> attempt_data (src (f, t) 1) = None \<Longrightarrow>
   attempt_data (src (f, t) 2) = None \<Longrightarrow> fetch_historical_data src f t = None"
  by (simp add: fetch_historical_data_def)

lemma fetch_first_success:
  "attempt_data (src (f, t) 0) = Some d \<Longrightarrow> fetch_historical_data src f t = Some d"
  by (simp add: fetch_historical_data_def)

lemma loop_body_missing:
  "fetch_historical_data src (current_date s) (current_date s + 30) = None \<Longrightarrow>
   loop_body src s =
     Inr (s\<lparr>fetching := fetching s @ [(current_date s, current_date s + 30)],
            missing_dates := missing_dates s @ [(current_date s, current_date s + 30)],
            current_date := current_date s + 30\<rparr>)"
  by (simp add: loop_body_def Let_def)

lemma loop_body_fetched:
  "fetch_historical_data src (current_date s) (current_date s + 30) = Some d \<Longrightarrow>
   loop_body src s =
     (case normalize d of
        Inl e \<Rightarrow> Inl e
      | Inr df \<Rightarrow>
          Inr (s\<lparr>fetching := fetching s @ [(current_date s, current_date s + 30)],
                 first_date := (if first_date s = None then Some (current_date s) else first_date s),
                 last_date := Some (current_date s + 30),
                 all_data := all_data s @ [df],
                 current_date := current_date s + 30\<rparr>))"
  using fetch_nonempty [of src "current_date s" "current_date s + 30" d]
  by (simp add: loop_body_def Let_def)

lemma loop_body_result:
  assumes "loop_body src s = Inr s'"
  shows "current_date s' = current_date s + 30
    \<and> fetching s' = fetching s @ [(current_date s, current_date s + 30)]
    \<and> missing_dates s' = missing_dates s @
        (if fetch_historical_data src (current_date s) (current_date s + 30) = None
         then [(current_date s, current_date s + 30)] else [])
    \<and> length (all_data s') = length (all_data s) +
        (if fetch_historical_data src (current_date s) (current_date s + 30) = None then 0 else 1)"
proof (cases "fetch_historical_data src (current_date s) (current_date s + 30)")
  case None
  from loop_body_missing [OF None] assms show ?thesis using None by auto
next
  case (Some d)
  from loop_body_fetched [OF Some] assms show ?thesis using Some
    by (auto split: sum.splits)
qed

lemma main_loop_result:
  "main_loop src end_date s = Inr s' \<Longrightarrow>
     fetching s' = fetching s @ date_ranges (current_date s) end_date
     \<and> missing_dates s' = missing_dates s @ filter (failed_range src) (date_ranges (current_date s) end_date)
     \<and> length (all_data s') = length (all_data s) +
         length (filter (\<lambda>r. \<not> failed_range src r) (date_ranges (current_date s) end_date))"
proof (induction src end_date s rule: main_loop.induct)
  case (1 src end_date s)
  show ?case
  proof (cases "current_date s < end_date")
    case False
    with "1.prems" show ?thesis
      by (simp add: main_loop.simps [of src end_date s] date_ranges_done)
  next
    case True
    from True "1.prems" obtain s1 where
      body: "loop_body src s = Inr s1" and rest: "main_loop src end_date s1 = Inr s'"
      by (auto simp: main_loop.simps [of src end_date s] split: sum.splits)
    note r = loop_body_result [OF body]
    from "1.IH" [OF True body rest] r show ?thesis
      by (simp add: date_ranges_step [OF True] failed_range_def)
  qed
qed

lemma main_loop_abort:
  assumes "current_date s < end_date"
    and "fetch_historical_data src (current_date s) (current_date s + 30) = Some d"
    and "normalize d = Inl e"
  shows "main_loop src end_date s = Inl e"
  using assms loop_body_fetched [OF assms(2)]
  by (simp add: main_loop.simps [of src end_date s])

lemma main_loop_completes:
  "(\<forall>r \<in> set (date_ranges (current_date s) end_date). \<forall>d.
      fetch_historical_data src (fst r) (snd r) = Some d \<longrightarrow> (\<exists>df. normalize d = Inr df)) \<Longrightarrow>
   \<exists>s'. main_loop src end_date s = Inr s'"
proof (induction src end_date s rule: main_loop.induct)
  case (1 src end_date s)
  show ?case
  proof (cases "current_date s < end_date")
    case False
    then show ?thesis by (simp add: main_loop.simps [of src end_date s])
  next
    case True
    note step = date_ranges_step [OF True]
    have "\<exists>s1. loop_body src s = Inr s1"
    proof (cases "fetch_historical_data src (current_date s) (current_date s + 30)")
      case None
      from loop_body_missing [OF None] show ?thesis by simp
    next
      case (Some d)
      with "1.prems" step obtain df where "normalize d = Inr df" by auto
      with loop_body_fetched [OF Some] show ?thesis by simp
    qed
    then obtain s1 where body: "loop_body src s = Inr s1" ..
    from loop_body_result [OF body] have cur: "current_date s1 = current_date s + 30" by simp
    from "1.prems" step cur have "\<forall>r \<in> set (date_ranges (current_date s1) end_date). \<forall>d.
      fetch_historical_data src (fst r) (snd r) = Some d \<longrightarrow> (\<exists>df. normalize d = Inr df)"
      by simp
    from "1.IH" [OF True body this] body True show ?thesis
      by (simp add: main_loop.simps [of src end_date s])
  qed
qed

lemma count_list_distinct: "distinct xs \<Longrightarrow> x \<in> set xs \<Longrightarrow> count_list xs x = 1"
  by (induction xs) auto

lemma missing_exactly_once:
  assumes "main_loop src end_date s = Inr s'"
    and "r \<in> set (date_ranges (current_date s) end_date)"
    and "failed_range src r" and "r \<notin> set (missing_dates s)"
  shows "count_list (missing_dates s') r = 1"
proof -
  have "distinct (filter (failed_range src) (date_ranges (current_date s) end_date))"
    using date_ranges_distinct by simp
  moreover have "r \<in> set (filter (failed_range src) (date_ranges (current_date s) end_date))"
    using assms(2,3) by simp
  ultimately have "count_list (filter (failed_range src) (date_ranges (current_date s) end_date)) r = 1"
    by (rule count_list_distinct)
  with main_loop_result [OF assms(1)] assms(4) show ?thesis by simp
qed

lemma main_loop_step:
  "current_date s < end_date \<Longrightarrow> loop_body src s = Inr s1 \<Longrightarrow>
     main_loop src end_date s = main_loop src end_date s1"
  by (simp add: main_loop.simps [of src end_date s])

lemma main_loop_done: "\<not> current_date s < end_date \<Longrightarrow> main_loop src end_date s = Inr s"
  by (simp add: main_loop.simps [of src end_date s])

lemma normalize_short_row:
  "normalize [[S ''2005-01-03T09:15:00+05:30'', N 100, N 101, N 99, N 100]] = Inl MalformedRecord"
  by (simp add: normalize_def DataFrame_def)

text \<open>
  C5, as stated, fails: when the source answers with five-field records, building the
  frame of the first chunk raises, and the exception ends the run. The chunk is not
  retried and not recorded as missing, and the run does not complete.
\<close>

theorem malformed_chunk_aborts_run:
  "backfill_run remote_short_rows 2005 2025 = Inl (Aborted MalformedRecord)"
proof -
  have f: "fetch_historical_data remote_short_rows (current_date (init_backfill 731947))
      (current_date (init_backfill 731947) + 30)
      = Some [[S ''2005-01-03T09:15:00+05:30'', N 100, N 101, N 99, N 100]]"
    by (simp add: fetch_historical_data_def remote_short_rows_def attempt_data_def)
  have "main_loop remote_short_rows 739252 (init_backfill 731947) = Inl MalformedRecord"
    by (rule main_loop_abort [OF _ f normalize_short_row]) (simp add: init_backfill_def)
  then show ?thesis
    by (simp add: backfill_run_def jan1_def days_before_year_def)
qed

text \<open>
  C5 (amended): a chunk that is fetched and whose records cannot be normalized ends the
  loop with that exception; and a run in which every fetched chunk can be normalized
  completes, whatever the fetches of the other chunks did.
\<close>

theorem normalization_failure_aborts:
  "(current_date s < end_date
      \<and> fetch_historical_data src (current_date s) (current_date s + 30) = Some d
      \<and> normalize d = Inl e \<longrightarrow> main_loop src end_date s = Inl e)
   \<and> ((\<forall>r \<in> set (date_ranges (current_date s) end_date). \<forall>d.
         fetch_historical_data src (fst r) (snd r) = Some d \<longrightarrow> (\<exists>df. normalize d = Inr df))
       \<longrightarrow> (\<exists>s'. main_loop src end_date s = Inr s'))"
  using main_loop_abort [of s end_date src d e] main_loop_completes [of s end_date src]
  by blast

text \<open>C5, at the source with five-field records (the run aborts) and at the source
  that always raises (the run completes).\<close>

theorem normalization_failure_aborts_witness:
  "main_loop remote_short_rows 739252 (init_backfill 731947) = Inl MalformedRecord
   \<and> (\<exists>s'. main_loop remote_down 732012 (init_backfill 731947) = Inr s')"
proof -
  have f: "fetch_historical_data remote_short_rows (current_date (init_backfill 731947))
      (current_date (init_backfill 731947) + 30)
      = Some [[S ''2005-01-03T09:15:00+05:30'', N 100, N 101, N 99, N 100]]"
    by (simp add: fetch_historical_data_def remote_short_rows_def attempt_data_def)
  have c: "current_date (init_backfill 731947) < 739252"
    by (simp add: init_backfill_def)
  have a: "main_loop remote_short_rows 739252 (init_backfill 731947) = Inl MalformedRecord"
    using normalization_failure_aborts [where s = "init_backfill 731947" and end_date = 739252
        and src = remote_short_rows and e = MalformedRecord
        and d = "[[S ''2005-01-03T09:15:00+05:30'', N 100, N 101, N 99, N 100]]"]
      f c normalize_short_row
    by blast
  have g: "\<forall>r \<in> set (date_ranges (current_date (init_backfill 731947)) 732012). \<forall>d.
         fetch_historical_data remote_down (fst r) (snd r) = Some d \<longrightarrow> (\<exists>df. normalize d = Inr df)"
    by (simp add: fetch_historical_data_def remote_down_def attempt_data_def)
  have b: "\<exists>s'. main_loop remote_down 732012 (init_backfill 731947) = Inr s'"
    using normalization_failure_aborts [where s = "init_backfill 731947" and end_date = 732012 and src = remote_down] g
    by blast
  from a b show ?thesis by simp
qed

text \<open>
  C6: when the three attempts for a chunk fail, the iteration for that chunk does not
  raise, appends the chunk to \<open>missing_dates\<close>, leaves \<open>all_data\<close> as it is and goes on
  to the next date; in a run that completes, the chunk is in \<open>missing_dates\<close> exactly
  once. An attempt fails exactly when the call raises or the response is \<open>None\<close>, has no
  \<open>data\<close> key or has empty \<open>data\<close>.
\<close>

theorem exhausted_chunk_recorded_once:
  assumes "attempt_data (src (f, f + 30) 0) = None"
    and "attempt_data (src (f, f + 30) 1) = None"
    and "attempt_data (src (f, f + 30) 2) = None"
  shows "(current_date s = f \<longrightarrow>
           (\<exists>s1. loop_body src s = Inr s1
              \<and> missing_dates s1 = missing_dates s @ [(f, f + 30)]
              \<and> all_data s1 = all_data s
              \<and> current_date s1 = f + 30))
    \<and> (main_loop src end_date s = Inr s'
         \<and> (f, f + 30) \<in> set (date_ranges (current_date s) end_date)
         \<and> (f, f + 30) \<notin> set (missing_dates s)
       \<longrightarrow> count_list (missing_dates s') (f, f + 30) = 1)
    \<and> (attempt_data out = None) =
        (out = Raises \<or> out = Returns RespNone \<or> out = Returns (RespDict None)
         \<or> out = Returns (RespDict (Some [])))"
proof -
  have none: "fetch_historical_data src f (f + 30) = None"
    using assms by (rule fetch_exhausted [where src = src and f = f and t = "f + 30"])
  have a: "current_date s = f \<longrightarrow>
           (\<exists>s1. loop_body src s = Inr s1
              \<and> missing_dates s1 = missing_dates s @ [(f, f + 30)]
              \<and> all_data s1 = all_data s
              \<and> current_date s1 = f + 30)"
  proof
    assume "current_date s = f"
    with none loop_body_missing [of src s] show "\<exists>s1. loop_body src s = Inr s1
              \<and> missing_dates s1 = missing_dates s @ [(f, f + 30)]
              \<and> all_data s1 = all_data s
              \<and> current_date s1 = f + 30"
      by simp
  qed
  from none have fr: "failed_range src (f, f + 30)" by (simp add: failed_range_def)
  have b: "main_loop src end_date s = Inr s'
         \<and> (f, f + 30) \<in> set (date_ranges (current_date s) end_date)
         \<and> (f, f + 30) \<notin> set (missing_dates s)
       \<longrightarrow> count_list (missing_dates s') (f, f + 30) = 1"
    using missing_exactly_once [of src end_date s s' "(f, f + 30)"] fr by blast
  have c: "(attempt_data out = None) =
        (out = Raises \<or> out = Returns RespNone \<or> out = Returns (RespDict None)
         \<or> out = Returns (RespDict (Some [])))"
    by (auto simp: attempt_data_def split: api_outcome.splits response.splits option.splits)
  from a b c show ?thesis by blast
qed

text \<open>C6, at a source that always raises, on a span of three chunks.\<close>

theorem exhausted_chunk_recorded_once_witness:
  "main_loop remote_down 732012 (init_backfill 731947) =
     Inr \<lparr>current_date = 732037, all_data = [],
          missing_dates = [(731947, 731977), (731977, 732007), (732007, 732037)],
          first_date = None, last_date = None,
          fetching = [(731947, 731977), (731977, 732007), (732007, 732037)]\<rparr>
   \<and> count_list [(731947, 731977), (731977, 732007), (732007, 732037 :: int)] (731977 :: int, 732007) = 1"
proof -
  have f: "fetch_historical_data remote_down a b = None" for a b
    by (simp add: fetch_historical_data_def remote_down_def attempt_data_def)
  have run: "main_loop remote_down 732012 (init_backfill 731947) =
     Inr \<lparr>current_date = 732037, all_data = [],
          missing_dates = [(731947, 731977), (731977, 732007), (732007, 732037)],
          first_date = None, last_date = None,
          fetching = [(731947, 731977), (731977, 732007), (732007, 732037)]\<rparr>"
    by (simp add: main_loop.simps loop_body_missing f init_backfill_def)
  have r: "(731977, 731977 + 30) \<in> set (date_ranges (current_date (init_backfill 731947)) 732012)"
    by (simp add: init_backfill_def date_ranges_step date_ranges_done)
  have d: "attempt_data (remote_down (731977, 731977 + 30) n) = None" for n
    by (simp add: remote_down_def attempt_data_def)
  from exhausted_chunk_recorded_once [where src = remote_down and f = 731977 and s = "init_backfill 731947"
      and end_date = 732012, OF d d d] run r
  show ?thesis by (simp add: init_backfill_def)
qed

lemma normalize_unfold:
  "normalize data =
     (if max_len data \<noteq> 6 then Inl MalformedRecord
      else if max_len (map (\<lambda>r. pieces (cell_at r 0)) data) \<noteq> 2 then Inl MalformedRecord
      else Inr
        [(''Date'', map (\<lambda>r. piece_at (pieces (cell_at r 0)) 0) data),
         (''Time'', map (\<lambda>r. fst (extract_cell (piece_at (pieces (cell_at r 0)) 1))) data),
         (''Timezone'', map (\<lambda>r. snd (extract_cell (piece_at (pieces (cell_at r 0)) 1))) data),
         (''Open'', map (\<lambda>r. cell_at r 1) data),
         (''High'', map (\<lambda>r. cell_at r 2) data),
         (''Low'', map (\<lambda>r. cell_at r 3) data),
         (''Close'', map (\<lambda>r. cell_at r 4) data)])"
proof -
  have n: "Suc (Suc 0) = 2" "Suc (Suc (Suc 0)) = 3" "Suc (Suc (Suc (Suc 0))) = 4"
    by simp_all
  show ?thesis
    by (simp add: normalize_def DataFrame_def column_def set_column_def has_column_def
        select_columns_def Let_def comp_def n)
qed

lemma split_on_nonempty: "split_on c s \<noteq> []"
  by (induction s) (auto split: list.splits)

lemma split_on_no_sep: "c \<notin> set s \<Longrightarrow> split_on c s = [s]"
  by (induction s) auto

lemma split_on_sep: "c \<notin> set d \<Longrightarrow> split_on c (d @ c # rest) = d # split_on c rest"
  by (induction d) auto

lemma split_timestamp:
  "CHR ''T'' \<notin> set d \<Longrightarrow> CHR ''T'' \<notin> set u \<Longrightarrow> split_on CHR ''T'' (d @ ''T'' @ u) = [d, u]"
  by (simp add: split_on_sep split_on_no_sep)

lemma extract_time_offset:
  assumes "t \<noteq> []" "CHR ''+'' \<notin> set t"
    and "z = [] \<or> hd z = CHR ''+''"
  shows "extract_time (t @ z) = Some (t, offset_match z)"
proof -
  from assms(1,2) have h: "hd t \<noteq> CHR ''+''" by (cases t) auto
  with assms(1) have d: "dropWhile (\<lambda>c. c = CHR ''+'') (t @ z) = t @ z"
    by (cases t) auto
  from assms(2) have all: "\<forall>c \<in> set t. c \<noteq> CHR ''+''" by auto
  from assms(3) have tk: "takeWhile (\<lambda>c. c \<noteq> CHR ''+'') z = []"
    and dr: "dropWhile (\<lambda>c. c \<noteq> CHR ''+'') z = z"
    by (cases z; auto)+
  from all have "takeWhile (\<lambda>c. c \<noteq> CHR ''+'') (t @ z) = t @ takeWhile (\<lambda>c. c \<noteq> CHR ''+'') z"
    and "dropWhile (\<lambda>c. c \<noteq> CHR ''+'') (t @ z) = dropWhile (\<lambda>c. c \<noteq> CHR ''+'') z"
    by (simp_all add: takeWhile_append2 dropWhile_append2)
  with d tk dr assms(1) show ?thesis by (simp add: extract_time_def)
qed

text \<open>
  C9: in a batch the normalizer accepts, a record whose timestamp is a date, \<open>T\<close>, a
  time and an offset \<open>+HH:MM\<close> (date and time without \<open>T\<close>, the time not empty and
  without \<open>+\<close>) gets exactly these three parts as Date, Time and Timezone, and joining
  them gives the timestamp back; without the offset, Timezone is missing (not a
  default) and Date and Time are as before.
\<close>

theorem normalize_splits_timestamp:
  assumes "normalize data = Inr df" and "i < length data"
    and "data ! i = S (d @ ''T'' @ t @ z) # rest"
    and "CHR ''T'' \<notin> set d" and "CHR ''T'' \<notin> set t" and "CHR ''+'' \<notin> set t" and "t \<noteq> []"
  shows "(is_digit h1 \<and> is_digit h2 \<and> is_digit m1 \<and> is_digit m2
            \<and> z = [CHR ''+'', h1, h2, CHR '':'', m1, m2] \<longrightarrow>
           column df ''Date'' ! i = S d \<and> column df ''Time'' ! i = S t
           \<and> column df ''Timezone'' ! i = S z
           \<and> join_timestamp (column df ''Date'' ! i) (column df ''Time'' ! i)
                (column df ''Timezone'' ! i) = Some (d @ ''T'' @ t @ z))
       \<and> (z = [] \<longrightarrow>
           column df ''Date'' ! i = S d \<and> column df ''Time'' ! i = S t
           \<and> column df ''Timezone'' ! i = NA
           \<and> join_timestamp (column df ''Date'' ! i) (column df ''Time'' ! i)
                (column df ''Timezone'' ! i) = Some (d @ ''T'' @ t))"
proof -
  let ?r = "data ! i"
  from assms(1) have df: "df =
        [(''Date'', map (\<lambda>r. piece_at (pieces (cell_at r 0)) 0) data),
         (''Time'', map (\<lambda>r. fst (extract_cell (piece_at (pieces (cell_at r 0)) 1))) data),
         (''Timezone'', map (\<lambda>r. snd (extract_cell (piece_at (pieces (cell_at r 0)) 1))) data),
         (''Open'', map (\<lambda>r. cell_at r 1) data),
         (''High'', map (\<lambda>r. cell_at r 2) data),
         (''Low'', map (\<lambda>r. cell_at r 3) data),
         (''Close'', map (\<lambda>r. cell_at r 4) data)]"
    by (simp add: normalize_unfold split: if_splits)
  have cols: "column df ''Date'' ! i = piece_at (pieces (cell_at ?r 0)) 0"
    "column df ''Time'' ! i = fst (extract_cell (piece_at (pieces (cell_at ?r 0)) 1))"
    "column df ''Timezone'' ! i = snd (extract_cell (piece_at (pieces (cell_at ?r 0)) 1))"
    using assms(2) by (simp_all add: df column_def)
  have ps: "pieces (cell_at ?r 0) = [d, t @ z]" if "CHR ''T'' \<notin> set z"
    using assms(3,4,5) that split_timestamp [of d "t @ z"]
    by (simp add: cell_at_def pieces_def)
  have A: "column df ''Date'' ! i = S d \<and> column df ''Time'' ! i = S t
           \<and> column df ''Timezone'' ! i = S z
           \<and> join_timestamp (column df ''Date'' ! i) (column df ''Time'' ! i)
                (column df ''Timezone'' ! i) = Some (d @ ''T'' @ t @ z)"
    if dig: "is_digit h1 \<and> is_digit h2 \<and> is_digit m1 \<and> is_digit m2"
      and z: "z = [CHR ''+'', h1, h2, CHR '':'', m1, m2]"
  proof -
    from dig have "h1 \<noteq> CHR ''T'' \<and> h2 \<noteq> CHR ''T'' \<and> m1 \<noteq> CHR ''T'' \<and> m2 \<noteq> CHR ''T''"
      by (auto simp: is_digit_def)
    with z have nz: "CHR ''T'' \<notin> set z" by auto
    from z dig have om: "offset_match z = Some z" by simp
    from z have "z = [] \<or> hd z = CHR ''+''" by simp
    from extract_time_offset [OF assms(7,6) this] om
    have "extract_time (t @ z) = Some (t, Some z)" by simp
    with ps [OF nz] cols show ?thesis
      by (simp add: piece_at_def extract_cell_def join_timestamp_def)
  qed
  have B: "column df ''Date'' ! i = S d \<and> column df ''Time'' ! i = S t
           \<and> column df ''Timezone'' ! i = NA
           \<and> join_timestamp (column df ''Date'' ! i) (column df ''Time'' ! i)
                (column df ''Timezone'' ! i) = Some (d @ ''T'' @ t)"
    if z: "z = []"
  proof -
    from z have nz: "CHR ''T'' \<notin> set z" by simp
    from z have "z = [] \<or> hd z = CHR ''+''" by simp
    from extract_time_offset [OF assms(7,6) this] z
    have "extract_time (t @ z) = Some (t, None)" by simp
    with ps [OF nz] cols z show ?thesis
      by (simp add: piece_at_def extract_cell_def join_timestamp_def)
  qed
  from A B show ?thesis by blast
qed

text \<open>C9, at the timestamp of the spec and at one without offset.\<close>

theorem normalize_splits_timestamp_witness:
  "normalize [[S ''2025-01-05T09:15:00+05:30'', N 100, N 101, N 99, N (201 / 2), N 1234],
              [S ''2025-01-05T09:16:00'', N 100, N 101, N 99, N (201 / 2), N 1234]]
     = Inr [(''Date'', [S ''2025-01-05'', S ''2025-01-05'']),
            (''Time'', [S ''09:15:00'', S ''09:16:00'']),
            (''Timezone'', [S ''+05:30'', NA]),
            (''Open'', [N 100, N 100]), (''High'', [N 101, N 101]), (''Low'', [N 99, N 99]),
            (''Close'', [N (201 / 2), N (201 / 2)])]
   \<and> join_timestamp (S ''2025-01-05'') (S ''09:15:00'') (S ''+05:30'') = Some ''2025-01-05T09:15:00+05:30''"
proof -
  let ?data = "[[S ''2025-01-05T09:15:00+05:30'', N 100, N 101, N 99, N (201 / 2), N 1234],
              [S ''2025-01-05T09:16:00'', N 100, N 101, N 99, N (201 / 2), N 1234]]"
  let ?df = "[(''Date'', [S ''2025-01-05'', S ''2025-01-05'']),
            (''Time'', [S ''09:15:00'', S ''09:16:00'']),
            (''Timezone'', [S ''+05:30'', NA]),
            (''Open'', [N 100, N 100]), (''High'', [N 101, N 101]), (''Low'', [N 99, N 99]),
            (''Close'', [N (201 / 2), N (201 / 2)])]"
  have n: "normalize ?data = Inr ?df"
    by (simp add: normalize_unfold cell_at_def pieces_def piece_at_def extract_cell_def
        extract_time_def is_digit_def)
  have i: "0 < length ?data" by simp
  have r: "?data ! 0 = S (''2025-01-05'' @ ''T'' @ ''09:15:00'' @ ''+05:30'')
      # [N 100, N 101, N 99, N (201 / 2), N 1234]" by simp
  have dg: "is_digit CHR ''0'' \<and> is_digit CHR ''5'' \<and> is_digit CHR ''3'' \<and> is_digit CHR ''0''
      \<and> ''+05:30'' = [CHR ''+'', CHR ''0'', CHR ''5'', CHR '':'', CHR ''3'', CHR ''0'']"
    by (simp add: is_digit_def)
  have "join_timestamp (column ?df ''Date'' ! 0) (column ?df ''Time'' ! 0)
          (column ?df ''Timezone'' ! 0) = Some (''2025-01-05'' @ ''T'' @ ''09:15:00'' @ ''+05:30'')"
    using normalize_splits_timestamp [where ?h1.0 = "CHR ''0''" and ?h2.0 = "CHR ''5''" and ?m1.0 = "CHR ''3''"
        and ?m2.0 = "CHR ''0''", OF n i r] dg
    by (simp add: column_def join_timestamp_def)
  with n show ?thesis by (simp add: column_def join_timestamp_def)
qed

lemma rename_column_keeps:
  "(n, v) \<in> set df \<Longrightarrow> n \<noteq> old \<Longrightarrow> (n, v) \<in> set (rename_column old new df)"
  by (force simp: rename_column_def)

lemma rename_column_renames:
  "(old, v) \<in> set df \<Longrightarrow> (new, v) \<in> set (rename_column old new df)"
  by (force simp: rename_column_def)

lemma rename_column_filter:
  "x \<noteq> old \<Longrightarrow> x \<noteq> new \<Longrightarrow>
     filter (\<lambda>(n, v). n = x) (rename_column old new df) = filter (\<lambda>(n, v). n = x) df"
  by (induction df) (auto simp: rename_column_def split: if_splits)

lemma rename_column_has:
  "x \<noteq> old \<Longrightarrow> x \<noteq> new \<Longrightarrow> has_column (rename_column old new df) x = has_column df x"
  by (induction df) (auto simp: rename_column_def has_column_def)

lemma filter_other_name:
  "x \<noteq> y \<Longrightarrow> filter (\<lambda>(n, v). n = x) (filter (\<lambda>(n, v). n = y) df) = []"
  by (induction df) auto

lemma filter_same_name:
  "filter (\<lambda>(n, v). n = x) (filter (\<lambda>(n, v). n = x) df) = filter (\<lambda>(n, v). n = x) df"
  by (induction df) auto

lemma has_column_filter: "has_column df x = (filter (\<lambda>(n, v). n = x) df \<noteq> [])"
  by (induction df) (auto simp: has_column_def)

lemma distinct_names_filter:
  "distinct (map fst df) \<Longrightarrow> has_column df x \<Longrightarrow> \<exists>v. filter (\<lambda>(n, v). n = x) df = [(x, v)]"
proof (induction df)
  case Nil
  then show ?case by (simp add: has_column_def)
next
  case (Cons c df)
  obtain n v where c: "c = (n, v)" by (cases c)
  show ?case
  proof (cases "n = x")
    case True
    with Cons.prems c have "x \<notin> fst ` set df" by simp
    then have "filter (\<lambda>(n, v). n = x) df = []"
      by (induction df) auto
    with True c show ?thesis by simp
  next
    case False
    with Cons c show ?thesis by (simp add: has_column_def)
  qed
qed

lemma set_column_filter:
  assumes "distinct (map fst df) \<or> \<not> has_column df x"
  shows "filter (\<lambda>(n, v). n = x) (set_column df x vals) = [(x, vals)]"
proof (cases "has_column df x")
  case False
  then have "filter (\<lambda>(n, v). n = x) df = []" by (simp add: has_column_filter)
  with False show ?thesis by (simp add: set_column_def)
next
  case True
  with assms have "distinct (map fst df)" by simp
  from distinct_names_filter [OF this True] obtain v where
    f: "filter (\<lambda>(n, v). n = x) df = [(x, v)]" ..
  have "filter (\<lambda>(n, v). n = x) (map (\<lambda>(n, v). if n = x then (n, vals) else (n, v)) df)
      = map (\<lambda>(n, v). (n, vals)) (filter (\<lambda>(n, v). n = x) df)"
    by (induction df) auto
  with f True show ?thesis by (simp add: set_column_def)
qed

lemma select_five:
  assumes "select_columns df [a, b, c, d, e] = Some out"
  shows "out = filter (\<lambda>(n, v). n = a) df @ filter (\<lambda>(n, v). n = b) df
      @ filter (\<lambda>(n, v). n = c) df @ filter (\<lambda>(n, v). n = d) df @ filter (\<lambda>(n, v). n = e) df"
    and "has_column df e"
  using assms by (auto simp: select_columns_def split: if_splits)

lemma volume_of_load_data:
  assumes "load_data csv = Inr out"
  shows "has_column (columns out) ''volume''"
    and "(''Volume'', v) \<in> set csv \<Longrightarrow> (''volume'', v) \<in> set (columns out)"
    and "\<not> has_column csv ''Volume'' \<Longrightarrow> distinct (map fst csv) \<Longrightarrow>
      filter (\<lambda>(n, v). n = ''volume'') (columns out)
        = [(''volume'', replicate (length (index out)) (N 0))]"
proof -
  define idx where "idx = zip (column csv ''Date'') (column csv ''Time'')"
  define df where "df = rename_column ''Close'' ''close'' (rename_column ''Low'' ''low''
                    (rename_column ''High'' ''high'' (rename_column ''Open'' ''open'' csv)))"
  define df' where "df' = (if \<not> has_column df ''Volume''
                    then set_column df ''volume'' (replicate (length idx) (N 0))
                    else rename_column ''Volume'' ''volume'' df)"
  from assms have sel: "select_columns df' [''open'', ''high'', ''low'', ''close'', ''volume'']
      = Some (columns out)" and ix: "index out = idx"
    by (auto simp: load_data_def Let_def idx_def df_def df'_def split: if_splits option.splits)
  note out = select_five [OF sel]
  have vol: "filter (\<lambda>(n, v). n = ''volume'') (columns out) = filter (\<lambda>(n, v). n = ''volume'') df'"
    by (subst out(1)) (simp add: filter_other_name filter_same_name del: filter_filter)
  from out(2) show "has_column (columns out) ''volume''"
    by (simp add: has_column_filter vol)
  have hv: "has_column df ''Volume'' = has_column csv ''Volume''"
    by (simp add: df_def rename_column_has)
  have fv: "filter (\<lambda>(n, v). n = ''volume'') df = filter (\<lambda>(n, v). n = ''volume'') csv"
    by (simp add: df_def rename_column_filter)
  {
    assume m: "(''Volume'', v) \<in> set csv"
    then have "(''Volume'', v) \<in> set df"
      by (simp add: df_def rename_column_keeps)
    moreover from this have "has_column df ''Volume''" by (force simp: has_column_def)
    ultimately have "(''volume'', v) \<in> set df'"
      by (simp add: df'_def rename_column_renames)
    then have "(''volume'', v) \<in> set (filter (\<lambda>(n, v). n = ''volume'') df')" by simp
    with vol have "(''volume'', v) \<in> set (filter (\<lambda>(n, v). n = ''volume'') (columns out))" by simp
    then show "(''volume'', v) \<in> set (columns out)" by simp
  }
  {
    assume nv: "\<not> has_column csv ''Volume''" and dis: "distinct (map fst csv)"
    from nv hv have d: "df' = set_column df ''volume'' (replicate (length idx) (N 0))"
      by (simp add: df'_def)
    have one: "filter (\<lambda>(n, v). n = ''volume'') (set_column df ''volume'' vals) = [(''volume'', vals)]"
      for vals
    proof (cases "has_column df ''volume''")
      case False
      then show ?thesis by (simp add: set_column_filter)
    next
      case True
      then have "has_column csv ''volume''" by (simp add: has_column_filter fv)
      from distinct_names_filter [OF dis this] fv obtain w where
        f: "filter (\<lambda>(n, v). n = ''volume'') df = [(''volume'', w)]" by auto
      have "filter (\<lambda>(n, v). n = ''volume'') (map (\<lambda>(n, v). if n = ''volume'' then (n, vals) else (n, v)) df)
        = map (\<lambda>(n, v). (n, vals)) (filter (\<lambda>(n, v). n = ''volume'') df)"
        by (induction df) auto
      with f True show ?thesis by (simp add: set_column_def)
    qed
    from vol d one ix show "filter (\<lambda>(n, v). n = ''volume'') (columns out)
        = [(''volume'', replicate (length (index out)) (N 0))]"
      by simp
  }
qed

text \<open>
  C8, as stated, fails: the normalizer of the fetch scripts takes a record with volume
  1234 and produces a row without any volume column; the loader then fills in 0 for the
  table written from it.
\<close>

theorem normalizer_drops_volume:
  "normalize [[S ''2025-01-05T09:15:00+05:30'', N 100, N 101, N 99, N (201 / 2), N 1234]]
     = Inr [(''Date'', [S ''2025-01-05'']), (''Time'', [S ''09:15:00'']),
            (''Timezone'', [S ''+05:30'']), (''Open'', [N 100]), (''High'', [N 101]),
            (''Low'', [N 99]), (''Close'', [N (201 / 2)])]
   \<and> load_data [(''Date'', [S ''2025-01-05'']), (''Time'', [S ''09:15:00'']),
            (''Timezone'', [S ''+05:30'']), (''Open'', [N 100]), (''High'', [N 101]),
            (''Low'', [N 99]), (''Close'', [N (201 / 2)])]
     = Inr \<lparr>index = [(S ''2025-01-05'', S ''09:15:00'')],
            columns = [(''open'', [N 100]), (''high'', [N 101]), (''low'', [N 99]),
                       (''close'', [N (201 / 2)]), (''volume'', [N 0])]\<rparr>"
  by (simp add: normalize_unfold cell_at_def pieces_def piece_at_def extract_cell_def
      extract_time_def is_digit_def load_data_def has_column_def column_def rename_column_def
      set_column_def select_columns_def)

text \<open>
  C8 (amended): the frame the fetch normalizer produces has the columns Date, Time,
  Timezone, Open, High, Low, Close and no volume. The table \<open>load_data\<close> returns has a
  \<open>volume\<close> column; a \<open>Volume\<close> column of the file is in it under that name; and when
  the file (with distinct column names) has no \<open>Volume\<close> column, \<open>volume\<close> is 0 in every
  row.
\<close>

theorem loader_volume_column:
  "(normalize data = Inr df \<longrightarrow>
      map fst df = [''Date'', ''Time'', ''Timezone'', ''Open'', ''High'', ''Low'', ''Close''])
   \<and> (load_data csv = Inr out \<longrightarrow>
        has_column (columns out) ''volume''
        \<and> ((''Volume'', v) \<in> set csv \<longrightarrow> (''volume'', v) \<in> set (columns out))
        \<and> (\<not> has_column csv ''Volume'' \<and> distinct (map fst csv) \<longrightarrow>
             filter (\<lambda>(n, v). n = ''volume'') (columns out)
               = [(''volume'', replicate (length (index out)) (N 0))]))"
proof -
  have "normalize data = Inr df \<longrightarrow>
      map fst df = [''Date'', ''Time'', ''Timezone'', ''Open'', ''High'', ''Low'', ''Close'']"
    by (auto simp: normalize_unfold split: if_splits)
  then show ?thesis
    using volume_of_load_data(1) [of csv out] volume_of_load_data(2) [of csv out v]
      volume_of_load_data(3) [of csv out]
    by blast
qed

text \<open>C8, at a one-row table with a \<open>Volume\<close> column.\<close>

theorem loader_volume_column_witness:
  "load_data [(''Date'', [S ''2025-01-05'']), (''Time'', [S ''09:15:00'']), (''Open'', [N 100]),
       (''High'', [N 101]), (''Low'', [N 99]), (''Close'', [N (201 / 2)]), (''Volume'', [N 1234])]
     = Inr \<lparr>index = [(S ''2025-01-05'', S ''09:15:00'')],
            columns = [(''open'', [N 100]), (''high'', [N 101]), (''low'', [N 99]),
                       (''close'', [N (201 / 2)]), (''volume'', [N 1234])]\<rparr>
   \<and> has_column [(''open'', [N 100]), (''high'', [N 101]), (''low'', [N 99]),
                       (''close'', [N (201 / 2)]), (''volume'', [N 1234])] ''volume''"
proof -
  have l: "load_data [(''Date'', [S ''2025-01-05'']), (''Time'', [S ''09:15:00'']), (''Open'', [N 100]),
       (''High'', [N 101]), (''Low'', [N 99]), (''Close'', [N (201 / 2)]), (''Volume'', [N 1234])]
     = Inr \<lparr>index = [(S ''2025-01-05'', S ''09:15:00'')],
            columns = [(''open'', [N 100]), (''high'', [N 101]), (''low'', [N 99]),
                       (''close'', [N (201 / 2)]), (''volume'', [N 1234])]\<rparr>"
    by (simp add: load_data_def has_column_def column_def rename_column_def
      set_column_def select_columns_def)
  with loader_volume_column [where csv = "[(''Date'', [S ''2025-01-05'']), (''Time'', [S ''09:15:00'']),
       (''Open'', [N 100]), (''High'', [N 101]), (''Low'', [N 99]), (''Close'', [N (201 / 2)]),
       (''Volume'', [N 1234])]"
      and out = "\<lparr>index = [(S ''2025-01-05'', S ''09:15:00'')],
            columns = [(''open'', [N 100]), (''high'', [N 101]), (''low'', [N 99]),
                       (''close'', [N (201 / 2)]), (''volume'', [N 1234])]\<rparr>"]
  show ?thesis by simp
qed

end
